theory Spec2Isabelle
  imports Complex_Main
begin

section \<open>Data model\<close>

text \<open>
  The game lives in one source file. \<^verbatim>\<open>Direction\<close> is a union of four string
  literals and \<^verbatim>\<open>Point\<close> an object with two numeric fields. Coordinates are only
  ever produced from integer literals by adding \<open>1\<close>, \<open>0\<close> or \<open>-1\<close>, so the numbers are
  modelled as unbounded integers.
\<close>

datatype Direction = Up | Right | Down | Left

record Point =
  x :: int
  y :: int

definition GRID_SIZE :: int where
  "GRID_SIZE = 24"

definition BASE_TICK_MS :: int where
  "BASE_TICK_MS = 150"

definition MIN_TICK_MS :: int where
  "MIN_TICK_MS = 80"

definition SPEEDUP_EVERY_POINTS :: int where
  "SPEEDUP_EVERY_POINTS = 5"

definition SPEEDUP_STEP_MS :: int where
  "SPEEDUP_STEP_MS = 8"

fun DIRECTION_VECTORS :: "Direction \<Rightarrow> Point" where
  "DIRECTION_VECTORS Up = \<lparr>x = 0, y = -1\<rparr>"
| "DIRECTION_VECTORS Right = \<lparr>x = 1, y = 0\<rparr>"
| "DIRECTION_VECTORS Down = \<lparr>x = 0, y = 1\<rparr>"
| "DIRECTION_VECTORS Left = \<lparr>x = -1, y = 0\<rparr>"

fun LEFT_TURN :: "Direction \<Rightarrow> Direction" where
  "LEFT_TURN Up = Left"
| "LEFT_TURN Left = Down"
| "LEFT_TURN Down = Right"
| "LEFT_TURN Right = Up"

fun RIGHT_TURN :: "Direction \<Rightarrow> Direction" where
  "RIGHT_TURN Up = Right"
| "RIGHT_TURN Right = Down"
| "RIGHT_TURN Down = Left"
| "RIGHT_TURN Left = Up"

fun OPPOSITE_DIRECTION :: "Direction \<Rightarrow> Direction" where
  "OPPOSITE_DIRECTION Up = Down"
| "OPPOSITE_DIRECTION Down = Up"
| "OPPOSITE_DIRECTION Left = Right"
| "OPPOSITE_DIRECTION Right = Left"

section \<open>Speed scaling\<close>

text \<open>
  \<^verbatim>\<open>Math.floor(score / 5)\<close> on an integer score is the floored quotient, which is
  what \<open>div\<close> on \<open>int\<close> computes (also for a negative score).
\<close>

definition getNextTick :: "int \<Rightarrow> int" where
  "getNextTick score =
     (let level = score div SPEEDUP_EVERY_POINTS
      in max MIN_TICK_MS (BASE_TICK_MS - level * SPEEDUP_STEP_MS))"

section \<open>Cell keys\<close>

text \<open>
  \<^verbatim>\<open>pointKey\<close> renders a cell with the template literal \<^verbatim>\<open>`${point.x},${point.y}`\<close>.
  An integer number is rendered in decimal, with a leading minus sign when negative
  (the plain decimal form is what the language produces for every integer below
  \<open>10\<^sup>2\<^sup>1\<close> in magnitude).
\<close>

definition digit_char :: "nat \<Rightarrow> char" where
  "digit_char d = char_of (48 + d)"

fun nat_digits :: "nat \<Rightarrow> string" where
  "nat_digits n =
     (if n < 10 then [digit_char n]
      else nat_digits (n div 10) @ [digit_char (n mod 10)])"

declare nat_digits.simps [simp del]

definition number_toString :: "int \<Rightarrow> string" where
  "number_toString i =
     (if i < 0 then CHR ''-'' # nat_digits (nat (- i)) else nat_digits (nat i))"

definition pointKey :: "Point \<Rightarrow> string" where
  "pointKey point = number_toString (x point) @ '','' @ number_toString (y point)"

section \<open>Food spawner\<close>

definition createInitialSnake :: "Point list" where
  "createInitialSnake =
     (let center = GRID_SIZE div 2
      in [\<lparr>x = center, y = center\<rparr>,
          \<lparr>x = center - 1, y = center\<rparr>,
          \<lparr>x = center - 2, y = center\<rparr>])"

text \<open>
  The two nested counting loops of \<^verbatim>\<open>spawnFood\<close>: the outer one runs over the rows
  (the source's loop variable \<^verbatim>\<open>y\<close>), the inner one over the columns (\<^verbatim>\<open>x\<close>), and
  \<^verbatim>\<open>push\<close> appends at the end of \<^verbatim>\<open>emptyCells\<close>.
\<close>

function spawnFood_cols :: "string set \<Rightarrow> int \<Rightarrow> int \<Rightarrow> Point list \<Rightarrow> Point list" where
  "spawnFood_cols occupied row col emptyCells =
     (if col < GRID_SIZE
      then spawnFood_cols occupied row (col + 1)
             (if pointKey \<lparr>x = col, y = row\<rparr> \<notin> occupied
              then emptyCells @ [\<lparr>x = col, y = row\<rparr>]
              else emptyCells)
      else emptyCells)"
  by pat_completeness auto
termination
  by (relation "measure (\<lambda>(occupied, row, col, emptyCells). nat (GRID_SIZE - col))") auto

declare spawnFood_cols.simps [simp del]

function spawnFood_rows :: "string set \<Rightarrow> int \<Rightarrow> Point list \<Rightarrow> Point list" where
  "spawnFood_rows occupied row emptyCells =
     (if row < GRID_SIZE
      then spawnFood_rows occupied (row + 1) (spawnFood_cols occupied row 0 emptyCells)
      else emptyCells)"
  by pat_completeness auto
termination
  by (relation "measure (\<lambda>(occupied, row, emptyCells). nat (GRID_SIZE - row))") auto

declare spawnFood_rows.simps [simp del]

text \<open>
  \<^verbatim>\<open>Math.random()\<close> is the only effect of the function. Its result is passed in as
  the argument \<open>rnd\<close>; the language guarantees \<open>0 \<le> rnd < 1\<close>, and the theorems about
  the chosen cell assume exactly that. The product with the length is taken over the
  reals: for the at most 576 cells of the grid the rounded product of the source stays
  below the length as well, so the index is in range in both. When no cell is empty the
  snake covers the grid, so \<^verbatim>\<open>snake[0]\<close> exists.
\<close>

definition spawnFood :: "real \<Rightarrow> Point list \<Rightarrow> Point" where
  "spawnFood rnd snake =
     (let occupied = set (map pointKey snake);
          emptyCells = spawnFood_rows occupied 0 []
      in if length emptyCells = 0 then snake ! 0
         else emptyCells ! nat \<lfloor>rnd * real (length emptyCells)\<rfloor>)"

section \<open>Direction resolver\<close>

text \<open>
  \<^verbatim>\<open>toLowerCase\<close> on the letters \<open>A\<close> to \<open>Z\<close>; every other character is kept. A key
  symbol is a list of bytes here. Outside \<open>A\<close> to \<open>Z\<close> the source changes characters
  beyond ASCII only, and a symbol that holds one of those never becomes one of the
  recognised key names, which are ASCII throughout: the result of
  \<^verbatim>\<open>resolveDirectionInput\<close> is the same.
\<close>

definition toLowerCase_char :: "char \<Rightarrow> char" where
  "toLowerCase_char c =
     (let n = (of_char c :: nat)
      in if 65 \<le> n \<and> n \<le> 90 then char_of (n + 32) else c)"

definition toLowerCase :: "string \<Rightarrow> string" where
  "toLowerCase key = map toLowerCase_char key"

definition resolveDirectionInput :: "string \<Rightarrow> Direction \<Rightarrow> Direction option" where
  "resolveDirectionInput key currentDirection =
     (let k = toLowerCase key
      in if k = ''arrowup'' then Some Up
         else if k = ''arrowright'' then Some Right
         else if k = ''arrowdown'' then Some Down
         else if k = ''arrowleft'' then Some Left
         else if k = ''w'' then Some currentDirection
         else if k = ''a'' then Some (LEFT_TURN currentDirection)
         else if k = ''d'' then Some (RIGHT_TURN currentDirection)
         else None)"

section \<open>Step engine\<close>

text \<open>
  \<^verbatim>\<open>snake[0]\<close> of an empty array is \<^verbatim>\<open>undefined\<close>, and reading \<^verbatim>\<open>head.x\<close> then
  throws a \<^verbatim>\<open>TypeError\<close>: the first branch of the model.
\<close>

datatype error = TypeError

record StepResult =
  nextSnake :: "Point list"
  nextFood :: Point
  ateFood :: bool
  isGameOver :: bool

definition stepGame :: "real \<Rightarrow> Point list \<Rightarrow> Direction \<Rightarrow> Point \<Rightarrow> error + StepResult" where
  "stepGame rnd snake direction food =
     (case snake of
        [] \<Rightarrow> Inl TypeError
      | head # _ \<Rightarrow>
          let delta = DIRECTION_VECTORS direction;
              newHead = \<lparr>x = x head + x delta, y = y head + y delta\<rparr>;
              hitsWall = (x newHead < 0 \<or> y newHead < 0 \<or>
                          x newHead \<ge> GRID_SIZE \<or> y newHead \<ge> GRID_SIZE)
          in if hitsWall
             then Inr \<lparr>nextSnake = snake, nextFood = food, ateFood = False, isGameOver = True\<rparr>
             else
               let ate = (x newHead = x food \<and> y newHead = y food);
                   bodyToCheck = (if ate then snake else butlast snake)
               in if list_ex (\<lambda>segment. x segment = x newHead \<and> y segment = y newHead)
                       bodyToCheck
                  then Inr \<lparr>nextSnake = snake, nextFood = food, ateFood = False,
                            isGameOver = True\<rparr>
                  else
                    let grown = newHead # snake;
                        next = (if \<not> ate then butlast grown else grown)
                    in Inr \<lparr>nextSnake = next,
                            nextFood = (if ate then spawnFood rnd next else food),
                            ateFood = ate,
                            isGameOver = False\<rparr>)"

section \<open>The page component\<close>

text \<open>
  The state of \<^verbatim>\<open>HomePage\<close> that the game logic reads and writes: the values held
  by \<^verbatim>\<open>useState\<close> (suffix \<open>State\<close>) and the two mutable refs. The best score and the
  canvas are presentation only and are left out.
\<close>

record HomePage =
  snakeState :: "Point list"
  directionState :: Direction
  foodState :: Point
  scoreState :: int
  isStartedState :: bool
  isPausedState :: bool
  isGameOverState :: bool
  directionRef :: Direction
  pendingDirectionRef :: "Direction option"

definition initialHomePage :: "real \<Rightarrow> HomePage" where
  "initialHomePage rnd =
     \<lparr>snakeState = createInitialSnake,
      directionState = Right,
      foodState = spawnFood rnd createInitialSnake,
      scoreState = 0,
      isStartedState = False,
      isPausedState = False,
      isGameOverState = False,
      directionRef = Right,
      pendingDirectionRef = None\<rparr>"

definition resetGame :: "real \<Rightarrow> HomePage \<Rightarrow> HomePage" where
  "resetGame rnd s =
     (let initialSnake = createInitialSnake
      in s\<lparr>snakeState := initialSnake,
            directionState := Right,
            directionRef := Right,
            pendingDirectionRef := None,
            foodState := spawnFood rnd initialSnake,
            scoreState := 0,
            isPausedState := False,
            isGameOverState := False\<rparr>)"

text \<open>\<^verbatim>\<open>pendingDirectionRef.current ?? directionRef.current\<close>\<close>

definition activeDirection :: "HomePage \<Rightarrow> Direction" where
  "activeDirection s =
     (case pendingDirectionRef s of None \<Rightarrow> directionRef s | Some pending \<Rightarrow> pending)"

definition applyInputDirection :: "Direction \<Rightarrow> HomePage \<Rightarrow> HomePage" where
  "applyInputDirection requestedDirection s =
     (if requestedDirection = OPPOSITE_DIRECTION (activeDirection s) then s
      else s\<lparr>pendingDirectionRef := Some requestedDirection\<rparr>)"

definition onKeyDown :: "string \<Rightarrow> HomePage \<Rightarrow> HomePage" where
  "onKeyDown key s =
     (if key = '' ''
      then (if \<not> isStartedState s \<or> isGameOverState s then s
            else s\<lparr>isPausedState := \<not> isPausedState s\<rparr>)
      else
        (case resolveDirectionInput key (directionRef s) of
           None \<Rightarrow> s
         | Some mapped \<Rightarrow>
             if \<not> isStartedState s \<or> isPausedState s \<or> isGameOverState s then s
             else applyInputDirection mapped s))"

text \<open>
  The timer callback first commits the active heading (the first four statements of the
  callback), then steps the game and stores the result.
\<close>

definition commitDirection :: "HomePage \<Rightarrow> HomePage" where
  "commitDirection s =
     (let active = activeDirection s
      in s\<lparr>pendingDirectionRef := None,
            directionRef := active,
            directionState := active\<rparr>)"

definition timerCallback :: "real \<Rightarrow> HomePage \<Rightarrow> error + HomePage" where
  "timerCallback rnd s =
     (let active = activeDirection s;
          s1 = commitDirection s
      in case stepGame rnd (snakeState s) active (foodState s) of
           Inl e \<Rightarrow> Inl e
         | Inr result \<Rightarrow>
             let s2 = s1\<lparr>snakeState := nextSnake result, foodState := nextFood result\<rparr>;
                 s3 = (if ateFood result then s2\<lparr>scoreState := scoreState s2 + 1\<rparr> else s2);
                 s4 = (if isGameOver result
                       then s3\<lparr>isGameOverState := True, isPausedState := False\<rparr>
                       else s3)
             in Inr s4)"

text \<open>The effect arms the timer only while the game is started, not paused and not over.\<close>

definition tick :: "real \<Rightarrow> HomePage \<Rightarrow> error + HomePage" where
  "tick rnd s =
     (if \<not> isStartedState s \<or> isPausedState s \<or> isGameOverState s then Inr s
      else timerCallback rnd s)"

definition clickStart :: "real \<Rightarrow> HomePage \<Rightarrow> HomePage" where
  "clickStart rnd s =
     (let s1 = (if \<not> isStartedState s then resetGame rnd s else s)
      in s1\<lparr>isStartedState := True, isPausedState := False, isGameOverState := False\<rparr>)"

text \<open>The pause button is disabled while the game is not started or is over.\<close>

definition clickPause :: "HomePage \<Rightarrow> HomePage" where
  "clickPause s =
     (if \<not> isStartedState s \<or> isGameOverState s then s
      else s\<lparr>isPausedState := \<not> isPausedState s\<rparr>)"

definition clickRestart :: "real \<Rightarrow> HomePage \<Rightarrow> HomePage" where
  "clickRestart rnd s = (resetGame rnd s)\<lparr>isStartedState := True\<rparr>"

text \<open>
  Everything that can happen to the page: a key press, the timer firing, and the three
  buttons. An event that draws a random number carries it.
\<close>

datatype Event =
  KeyDown string
| TimerFired real
| ClickStart real
| ClickPause
| ClickRestart real

fun dispatch :: "Event \<Rightarrow> HomePage \<Rightarrow> error + HomePage" where
  "dispatch (KeyDown key) s = Inr (onKeyDown key s)"
| "dispatch (TimerFired rnd) s = tick rnd s"
| "dispatch (ClickStart rnd) s = Inr (clickStart rnd s)"
| "dispatch ClickPause s = Inr (clickPause s)"
| "dispatch (ClickRestart rnd) s = Inr (clickRestart rnd s)"

fun run :: "HomePage \<Rightarrow> Event list \<Rightarrow> error + HomePage" where
  "run s [] = Inr s"
| "run s (e # es) = (case dispatch e s of Inl err \<Rightarrow> Inl err | Inr s' \<Rightarrow> run s' es)"

section \<open>Notions used in the statements\<close>

text \<open>The grid \<open>[0, GRID_SIZE) \<times> [0, GRID_SIZE)\<close>.\<close>

definition inGrid :: "Point \<Rightarrow> bool" where
  "inGrid p \<longleftrightarrow> 0 \<le> x p \<and> x p < GRID_SIZE \<and> 0 \<le> y p \<and> y p < GRID_SIZE"

text \<open>The head moved by the unit vector of the heading.\<close>

definition movedHead :: "Point \<Rightarrow> Direction \<Rightarrow> Point" where
  "movedHead head direction =
     \<lparr>x = x head + x (DIRECTION_VECTORS direction),
      y = y head + y (DIRECTION_VECTORS direction)\<rparr>"

text \<open>
  The collision check set of a step: the whole body when the new head is on the food,
  the body without its tail cell otherwise.
\<close>

definition checkSet :: "Point list \<Rightarrow> Point \<Rightarrow> Point \<Rightarrow> Point list" where
  "checkSet snake newHead food = (if newHead = food then snake else butlast snake)"

text \<open>
  The successor of an element in a cycle written as a list: the element that follows it,
  and the first element after the last one.
\<close>

definition cycleSuccessor :: "'a list \<Rightarrow> 'a \<Rightarrow> 'a" where
  "cycleSuccessor cycle d =
     (case dropWhile (\<lambda>e. e \<noteq> d) cycle of
        [] \<Rightarrow> d
      | [_] \<Rightarrow> hd cycle
      | _ # e # _ \<Rightarrow> e)"

text \<open>The left-turn cycle of the specification: up, left, down, right, and up again.\<close>

definition specLeftTurnCycle :: "Direction list" where
  "specLeftTurnCycle = [Up, Left, Down, Right]"

text \<open>
  Two key symbols are the same up to case when they have the same length and agree
  character by character, where an upper-case letter agrees with its lower-case form.
\<close>

definition specCasePairs :: "(char \<times> char) list" where
  "specCasePairs = zip ''ABCDEFGHIJKLMNOPQRSTUVWXYZ'' ''abcdefghijklmnopqrstuvwxyz''"

definition specSameLetter :: "char \<Rightarrow> char \<Rightarrow> bool" where
  "specSameLetter a b \<longleftrightarrow>
     a = b \<or> (a, b) \<in> set specCasePairs \<or> (b, a) \<in> set specCasePairs"

definition specSameKey :: "string \<Rightarrow> string \<Rightarrow> bool" where
  "specSameKey s t \<longleftrightarrow> list_all2 specSameLetter s t"

text \<open>
  A body that covers the whole board, row after row in alternating directions; an input
  for the degenerate case of the food spawner.
\<close>

definition fullBoardSnake :: "Point list" where
  "fullBoardSnake =
     concat (map (\<lambda>row. (if even row then (\<lambda>cells. cells) else rev)
                           (map (\<lambda>col. \<lparr>x = col, y = row\<rparr>) [0..GRID_SIZE - 1]))
                 [0..GRID_SIZE - 1])"

text \<open>A game that has just been started, with the given random draws for the food.\<close>

definition startedGame :: "real \<Rightarrow> real \<Rightarrow> HomePage" where
  "startedGame rnd0 rnd1 = clickStart rnd1 (initialHomePage rnd0)"

text \<open>The invariant of the body: no cell twice, and at least one cell.\<close>

definition bodyOk :: "HomePage \<Rightarrow> bool" where
  "bodyOk s \<longleftrightarrow> distinct (snakeState s) \<and> snakeState s \<noteq> []"

section \<open>Properties of the speed scaling\<close>

lemma getNextTick_closed_form:
  "getNextTick score = max 80 (150 - (score div 5) * 8)"
  by (simp add: getNextTick_def SPEEDUP_EVERY_POINTS_def MIN_TICK_MS_def
      BASE_TICK_MS_def SPEEDUP_STEP_MS_def)

lemma getNextTick_antimono:
  assumes "a \<le> b"
  shows "getNextTick b \<le> getNextTick a"
proof -
  from assms have "a div 5 \<le> b div 5"
    by (rule zdiv_mono1) simp
  then show ?thesis
    unfolding getNextTick_closed_form by simp
qed

lemma getNextTick_floor: "MIN_TICK_MS \<le> getNextTick score"
  by (simp add: getNextTick_def)

text \<open>
  Claim C9. For every non-negative score the tick interval is
  \<open>max 80 (150 - floor (score / 5) * 8)\<close> milliseconds; the interval never grows when
  the score grows, never falls below \<open>MIN_TICK_MS = 80\<close>, and a score of 12 gives 134.
\<close>

theorem getNextTick_spec:
  "(\<forall>score\<ge>0. getNextTick score = max 80 (150 - (score div 5) * 8))
   \<and> (\<forall>a b. 0 \<le> a \<and> a \<le> b \<longrightarrow> getNextTick b \<le> getNextTick a)
   \<and> (\<forall>score\<ge>0. 80 \<le> getNextTick score \<and> MIN_TICK_MS \<le> getNextTick score)
   \<and> MIN_TICK_MS = 80
   \<and> getNextTick 12 = 134"
proof (intro conjI allI impI)
  fix score :: int
  show "getNextTick score = max 80 (150 - (score div 5) * 8)"
    by (rule getNextTick_closed_form)
  show "MIN_TICK_MS \<le> getNextTick score"
    by (rule getNextTick_floor)
  then show "80 \<le> getNextTick score"
    by (simp add: MIN_TICK_MS_def)
next
  fix a b :: int
  assume "0 \<le> a \<and> a \<le> b"
  then show "getNextTick b \<le> getNextTick a"
    by (simp add: getNextTick_antimono)
next
  show "MIN_TICK_MS = 80"
    by (simp add: MIN_TICK_MS_def)
  show "getNextTick 12 = 134"
    by (simp add: getNextTick_closed_form)
qed

theorem getNextTick_spec_witness:
  "(0::int) \<le> 12 \<and> getNextTick 12 = max 80 (150 - (12 div 5) * 8)
   \<and> (0::int) \<le> 4 \<and> (4::int) \<le> 100 \<and> getNextTick 100 \<le> getNextTick 4
   \<and> getNextTick 4 = 150 \<and> getNextTick 100 = 80
   \<and> 80 \<le> getNextTick 12 \<and> getNextTick 12 = 134"
proof -
  have s: "\<forall>a b. 0 \<le> a \<and> a \<le> b \<longrightarrow> getNextTick b \<le> getNextTick a"
    and v: "getNextTick 12 = 134"
    and f: "\<forall>score\<ge>0. getNextTick score = max 80 (150 - (score div 5) * 8)"
    using getNextTick_spec by blast+
  have m: "getNextTick 100 \<le> getNextTick 4"
    using s by simp
  have "getNextTick 4 = 150" "getNextTick 100 = 80"
    using f by simp_all
  with m v show ?thesis by simp
qed

section \<open>Cell keys identify cells\<close>

text \<open>
  The decimal rendering of an integer determines the integer, and it contains no comma,
  so two cells have the same key exactly when they are the same cell.
\<close>

lemma digit_char_inj:
  assumes "d < 10" "e < 10"
  shows "digit_char d = digit_char e \<longleftrightarrow> d = e"
  using assms by (auto simp add: digit_char_def char_of_quasi_inj)

lemma digit_char_not_punct:
  assumes "d < 10"
  shows "digit_char d \<noteq> CHR '','' \<and> digit_char d \<noteq> CHR ''-''"
proof -
  from assms have "d = 0 \<or> d = 1 \<or> d = 2 \<or> d = 3 \<or> d = 4 \<or> d = 5 \<or> d = 6 \<or> d = 7 \<or> d = 8 \<or> d = 9"
    by arith
  then show ?thesis
    by (auto simp add: digit_char_def char_of_eq_iff)
qed

lemma nat_digits_nonempty: "nat_digits n \<noteq> []"
  by (subst nat_digits.simps) simp

lemma nat_digits_are_digits:
  "c \<in> set (nat_digits n) \<Longrightarrow> \<exists>d<10. c = digit_char d"
proof (induction n rule: nat_digits.induct)
  case (1 n)
  show ?case
  proof (cases "n < 10")
    case True
    with "1.prems" show ?thesis
      by (subst (asm) nat_digits.simps) auto
  next
    case False
    with "1.prems" have "c \<in> set (nat_digits (n div 10)) \<or> c = digit_char (n mod 10)"
      by (subst (asm) nat_digits.simps) auto
    then show ?thesis
    proof
      assume "c \<in> set (nat_digits (n div 10))"
      with False "1.IH" show ?thesis by simp
    next
      assume "c = digit_char (n mod 10)"
      moreover have "n mod 10 < 10" by simp
      ultimately show ?thesis by blast
    qed
  qed
qed

lemma nat_digits_inj: "nat_digits n = nat_digits m \<Longrightarrow> n = m"
proof (induction n arbitrary: m rule: nat_digits.induct)
  case (1 n)
  show ?case
  proof (cases "n < 10")
    case n_small: True
    show ?thesis
    proof (cases "m < 10")
      case True
      with n_small "1.prems" show ?thesis
        by (simp add: nat_digits.simps [of n] nat_digits.simps [of m] digit_char_inj)
    next
      case False
      with n_small "1.prems" have "nat_digits (m div 10) = []"
        by (simp add: nat_digits.simps [of n] nat_digits.simps [of m])
      then show ?thesis
        by (simp add: nat_digits_nonempty)
    qed
  next
    case n_big: False
    show ?thesis
    proof (cases "m < 10")
      case True
      with n_big "1.prems" have "nat_digits (n div 10) = []"
        by (simp add: nat_digits.simps [of n] nat_digits.simps [of m])
      then show ?thesis
        by (simp add: nat_digits_nonempty)
    next
      case False
      with n_big "1.prems"
      have init_eq: "nat_digits (n div 10) = nat_digits (m div 10)"
        and last_eq: "digit_char (n mod 10) = digit_char (m mod 10)"
        by (simp_all add: nat_digits.simps [of n] nat_digits.simps [of m])
      from init_eq n_big "1.IH" have "n div 10 = m div 10"
        by simp
      moreover from last_eq have "n mod 10 = m mod 10"
        by (simp add: digit_char_inj)
      ultimately show ?thesis
        by (metis div_mult_mod_eq)
    qed
  qed
qed

lemma nat_digits_no_punct:
  "CHR '','' \<notin> set (nat_digits n)" "CHR ''-'' \<notin> set (nat_digits n)"
proof -
  have "c \<noteq> CHR '','' \<and> c \<noteq> CHR ''-''" if "c \<in> set (nat_digits n)" for c
  proof -
    from that obtain d where "d < 10" "c = digit_char d"
      using nat_digits_are_digits by blast
    then show ?thesis
      by (simp add: digit_char_not_punct)
  qed
  then show "CHR '','' \<notin> set (nat_digits n)" "CHR ''-'' \<notin> set (nat_digits n)"
    by blast+
qed

lemma number_toString_no_comma: "CHR '','' \<notin> set (number_toString i)"
  by (simp add: number_toString_def nat_digits_no_punct)

lemma number_toString_inj:
  assumes "number_toString i = number_toString j"
  shows "i = j"
proof -
  have neg: "hd (number_toString k) = CHR ''-'' \<longleftrightarrow> k < 0" for k
  proof (cases "k < 0")
    case True
    then show ?thesis by (simp add: number_toString_def)
  next
    case False
    have "hd (nat_digits (nat k)) \<in> set (nat_digits (nat k))"
      by (simp add: nat_digits_nonempty)
    with nat_digits_no_punct(2) have "hd (nat_digits (nat k)) \<noteq> CHR ''-''"
      by metis
    with False show ?thesis by (simp add: number_toString_def)
  qed
  from assms neg [of i] neg [of j] have same_sign: "i < 0 \<longleftrightarrow> j < 0"
    by simp
  show ?thesis
  proof (cases "i < 0")
    case True
    with same_sign assms have "nat (- i) = nat (- j)"
      by (simp add: number_toString_def nat_digits_inj)
    with True same_sign show ?thesis by simp
  next
    case False
    with same_sign assms have "nat i = nat j"
      by (simp add: number_toString_def nat_digits_inj)
    with False same_sign show ?thesis by simp
  qed
qed

lemma pointKey_inj: "pointKey p = pointKey q \<longleftrightarrow> p = q"
proof
  assume "pointKey p = pointKey q"
  then have "number_toString (x p) = number_toString (x q) \<and>
      number_toString (y p) = number_toString (y q)"
    by (simp add: pointKey_def append_Cons_eq_iff number_toString_no_comma)
  then have "x p = x q \<and> y p = y q"
    by (simp add: number_toString_inj)
  then show "p = q" by simp
next
  assume "p = q"
  then show "pointKey p = pointKey q" by simp
qed

section \<open>The food spawner\<close>

text \<open>
  The loops enumerate the free cells of the grid row by row; the list they build is
  characterised first, then its set of elements.
\<close>

lemma spawnFood_cols_eq:
  "spawnFood_cols occupied row col emptyCells =
     emptyCells @ filter (\<lambda>cell. pointKey cell \<notin> occupied)
                    (map (\<lambda>c. \<lparr>x = c, y = row\<rparr>) [col..GRID_SIZE - 1])"
proof (induction occupied row col emptyCells rule: spawnFood_cols.induct)
  case (1 occupied row col emptyCells)
  show ?case
  proof (cases "col < GRID_SIZE")
    case True
    then have "[col..GRID_SIZE - 1] = col # [col + 1..GRID_SIZE - 1]"
      by (simp add: upto_rec1)
    with True "1.IH" show ?thesis
      by (subst spawnFood_cols.simps) simp
  next
    case False
    then show ?thesis
      by (subst spawnFood_cols.simps) simp
  qed
qed

lemma spawnFood_rows_eq:
  "spawnFood_rows occupied row emptyCells =
     emptyCells @ concat (map (\<lambda>r. filter (\<lambda>cell. pointKey cell \<notin> occupied)
                    (map (\<lambda>c. \<lparr>x = c, y = r\<rparr>) [0..GRID_SIZE - 1])) [row..GRID_SIZE - 1])"
proof (induction occupied row emptyCells rule: spawnFood_rows.induct)
  case (1 occupied row emptyCells)
  show ?case
  proof (cases "row < GRID_SIZE")
    case True
    then have "[row..GRID_SIZE - 1] = row # [row + 1..GRID_SIZE - 1]"
      by (simp add: upto_rec1)
    with True "1.IH" show ?thesis
      by (subst spawnFood_rows.simps) (simp add: spawnFood_cols_eq)
  next
    case False
    then show ?thesis
      by (subst spawnFood_rows.simps) simp
  qed
qed

lemma set_emptyCells:
  "set (spawnFood_rows (set (map pointKey snake)) 0 []) = {p. inGrid p \<and> p \<notin> set snake}"
proof -
  have key: "pointKey p \<in> pointKey ` set snake \<longleftrightarrow> p \<in> set snake" for p
    by (auto simp add: pointKey_inj)
  show ?thesis
  proof (rule set_eqI)
    fix p :: Point
    have "p \<in> set (spawnFood_rows (set (map pointKey snake)) 0 []) \<longleftrightarrow>
        (\<exists>r\<in>{0..GRID_SIZE - 1}. \<exists>c\<in>{0..GRID_SIZE - 1}.
           p = \<lparr>x = c, y = r\<rparr> \<and> \<lparr>x = c, y = r\<rparr> \<notin> set snake)"
      by (auto simp add: spawnFood_rows_eq key)
    also have "\<dots> \<longleftrightarrow> inGrid p \<and> p \<notin> set snake"
    proof
      assume "\<exists>r\<in>{0..GRID_SIZE - 1}. \<exists>c\<in>{0..GRID_SIZE - 1}.
           p = \<lparr>x = c, y = r\<rparr> \<and> \<lparr>x = c, y = r\<rparr> \<notin> set snake"
      then show "inGrid p \<and> p \<notin> set snake"
        by (auto simp add: inGrid_def)
    next
      assume a: "inGrid p \<and> p \<notin> set snake"
      then have "y p \<in> {0..GRID_SIZE - 1}" "x p \<in> {0..GRID_SIZE - 1}"
        by (simp_all add: inGrid_def)
      moreover have "p = \<lparr>x = x p, y = y p\<rparr>"
        by simp
      ultimately show "\<exists>r\<in>{0..GRID_SIZE - 1}. \<exists>c\<in>{0..GRID_SIZE - 1}.
           p = \<lparr>x = c, y = r\<rparr> \<and> \<lparr>x = c, y = r\<rparr> \<notin> set snake"
        using a by metis
    qed
    finally show "p \<in> set (spawnFood_rows (set (map pointKey snake)) 0 []) \<longleftrightarrow>
        p \<in> {p. inGrid p \<and> p \<notin> set snake}"
      by simp
  qed
qed

lemma random_index_in_range:
  assumes "0 \<le> rnd" "rnd < 1" "0 < n"
  shows "nat \<lfloor>rnd * real n\<rfloor> < n"
proof -
  from assms have "rnd * real n < real n"
    by simp
  then have "\<lfloor>rnd * real n\<rfloor> < int n"
    by (simp add: floor_less_iff)
  moreover from assms have "0 \<le> \<lfloor>rnd * real n\<rfloor>"
    by simp
  ultimately show ?thesis
    by linarith
qed

lemma spawnFood_free_cell:
  assumes "0 \<le> rnd" "rnd < 1" and "inGrid c" "c \<notin> set snake"
  shows "inGrid (spawnFood rnd snake) \<and> spawnFood rnd snake \<notin> set snake"
proof -
  let ?cells = "spawnFood_rows (set (map pointKey snake)) 0 []"
  from assms(3,4) have "c \<in> set ?cells"
    by (simp add: set_emptyCells del: set_map)
  then have pos: "0 < length ?cells"
    by (cases ?cells) auto
  with assms(1,2) have "nat \<lfloor>rnd * real (length ?cells)\<rfloor> < length ?cells"
    by (rule random_index_in_range)
  then have "?cells ! nat \<lfloor>rnd * real (length ?cells)\<rfloor> \<in> set ?cells"
    by (rule nth_mem)
  moreover from pos have "spawnFood rnd snake = ?cells ! nat \<lfloor>rnd * real (length ?cells)\<rfloor>"
    by (simp add: spawnFood_def Let_def)
  ultimately have "spawnFood rnd snake \<in> {p. inGrid p \<and> p \<notin> set snake}"
    by (simp add: set_emptyCells del: set_map)
  then show ?thesis by simp
qed

lemma spawnFood_full_grid:
  assumes "\<forall>c. inGrid c \<longrightarrow> c \<in> set snake"
  shows "spawnFood rnd snake = snake ! 0 \<and> snake \<noteq> []"
proof -
  let ?cells = "spawnFood_rows (set (map pointKey snake)) 0 []"
  from assms have "set ?cells = {}"
    by (auto simp add: set_emptyCells simp del: set_map)
  then have "?cells = []"
    by simp
  then have "spawnFood rnd snake = snake ! 0"
    by (simp add: spawnFood_def Let_def)
  moreover have "inGrid \<lparr>x = 0, y = 0\<rparr>"
    by (simp add: inGrid_def GRID_SIZE_def)
  with assms have "snake \<noteq> []"
    by fastforce
  ultimately show ?thesis by simp
qed

lemma fullBoardSnake_covers: "inGrid c \<Longrightarrow> c \<in> set fullBoardSnake"
proof -
  assume a: "inGrid c"
  then have "y c \<in> {0..GRID_SIZE - 1}" "x c \<in> {0..GRID_SIZE - 1}"
    by (simp_all add: inGrid_def)
  moreover have "c = \<lparr>x = x c, y = y c\<rparr>"
    by simp
  ultimately have "\<exists>r\<in>{0..GRID_SIZE - 1}. \<exists>col\<in>{0..GRID_SIZE - 1}. c = \<lparr>x = col, y = r\<rparr>"
    by metis
  then show ?thesis
    by (auto simp add: fullBoardSnake_def)
qed

text \<open>
  Claim C7. Whenever some grid cell is not occupied by the snake, \<open>spawnFood\<close> returns
  a cell inside the grid that no snake segment occupies (for every value that
  \<^verbatim>\<open>Math.random()\<close> can return); when the snake occupies every grid cell,
  \<open>spawnFood\<close> returns the head cell \<^verbatim>\<open>snake[0]\<close>.
\<close>

theorem spawnFood_spec:
  "(0 \<le> rnd \<and> rnd < 1 \<and> (\<exists>c. inGrid c \<and> c \<notin> set snake)
      \<longrightarrow> inGrid (spawnFood rnd snake) \<and> spawnFood rnd snake \<notin> set snake)
   \<and> ((\<forall>c. inGrid c \<longrightarrow> c \<in> set snake)
      \<longrightarrow> (\<exists>head rest. snake = head # rest \<and> spawnFood rnd snake = head)
          \<and> spawnFood rnd snake = snake ! 0)"
proof (intro conjI impI)
  assume "0 \<le> rnd \<and> rnd < 1 \<and> (\<exists>c. inGrid c \<and> c \<notin> set snake)"
  then obtain c where "0 \<le> rnd" "rnd < 1" "inGrid c" "c \<notin> set snake"
    by blast
  then have free: "inGrid (spawnFood rnd snake) \<and> spawnFood rnd snake \<notin> set snake"
    by (rule spawnFood_free_cell)
  from free show "inGrid (spawnFood rnd snake)" by simp
  from free show "spawnFood rnd snake \<notin> set snake" by simp
next
  assume full: "\<forall>c. inGrid c \<longrightarrow> c \<in> set snake"
  then have r: "spawnFood rnd snake = snake ! 0 \<and> snake \<noteq> []"
    by (rule spawnFood_full_grid)
  then show "spawnFood rnd snake = snake ! 0" by simp
  from r show "\<exists>head rest. snake = head # rest \<and> spawnFood rnd snake = head"
    by (cases snake) simp_all
qed

theorem spawnFood_spec_witness:
  "(0::real) \<le> 1 / 2 \<and> (1 / 2 :: real) < 1
   \<and> inGrid \<lparr>x = 0, y = 0\<rparr> \<and> \<lparr>x = 0, y = 0\<rparr> \<notin> set createInitialSnake
   \<and> inGrid (spawnFood (1 / 2) createInitialSnake)
   \<and> spawnFood (1 / 2) createInitialSnake \<notin> set createInitialSnake
   \<and> Collect inGrid \<subseteq> set fullBoardSnake
   \<and> spawnFood (1 / 2) fullBoardSnake = \<lparr>x = 0, y = 0\<rparr>"
proof -
  have free: "inGrid \<lparr>x = 0, y = 0\<rparr> \<and> \<lparr>x = 0, y = 0\<rparr> \<notin> set createInitialSnake"
    by (simp add: inGrid_def createInitialSnake_def GRID_SIZE_def)
  then have ex: "\<exists>c. inGrid c \<and> c \<notin> set createInitialSnake"
    by blast
  have full: "\<forall>c. inGrid c \<longrightarrow> c \<in> set fullBoardSnake"
    by (simp add: fullBoardSnake_covers)
  have "[0..GRID_SIZE - 1] = 0 # [1..GRID_SIZE - 1]"
    by (simp add: upto_rec1 GRID_SIZE_def)
  then have first: "fullBoardSnake ! 0 = \<lparr>x = 0, y = 0\<rparr>"
    by (simp add: fullBoardSnake_def)
  from ex have "inGrid (spawnFood (1 / 2) createInitialSnake)
      \<and> spawnFood (1 / 2) createInitialSnake \<notin> set createInitialSnake"
    using spawnFood_spec [of "1 / 2" createInitialSnake] by simp
  moreover from full first have "spawnFood (1 / 2) fullBoardSnake = \<lparr>x = 0, y = 0\<rparr>"
    using spawnFood_spec [of "1 / 2" fullBoardSnake] by simp
  moreover from full have "Collect inGrid \<subseteq> set fullBoardSnake"
    by blast
  ultimately show ?thesis
    using free by simp
qed

section \<open>The step engine\<close>

text \<open>
  One equation for a step of a non-empty snake, in terms of the moved head, the grid and
  the collision check set; every property of a step is read off from it.
\<close>

lemma same_cell_ex:
  "list_ex (\<lambda>segment. x segment = x p \<and> y segment = y p) cells \<longleftrightarrow> p \<in> set cells"
  for p :: Point
proof -
  have "(x segment = x p \<and> y segment = y p) = (segment = p)" for segment :: Point
    by auto
  then show ?thesis
    by (simp add: list_ex_iff)
qed

lemma stepGame_empty: "stepGame rnd [] direction food = Inl TypeError"
  by (simp add: stepGame_def)

lemma stepGame_Cons:
  "stepGame rnd (head # body) direction food =
     (let newHead = movedHead head direction
      in if \<not> inGrid newHead \<or> newHead \<in> set (checkSet (head # body) newHead food)
         then Inr \<lparr>nextSnake = head # body, nextFood = food, ateFood = False,
                   isGameOver = True\<rparr>
         else Inr \<lparr>nextSnake = (if newHead = food then newHead # head # body
                                 else newHead # butlast (head # body)),
                   nextFood = (if newHead = food then spawnFood rnd (newHead # head # body)
                               else food),
                   ateFood = (newHead = food),
                   isGameOver = False\<rparr>)"
proof -
  let ?newHead = "movedHead head direction"
  have fields: "x ?newHead = x head + x (DIRECTION_VECTORS direction)"
    "y ?newHead = y head + y (DIRECTION_VECTORS direction)"
    by (simp_all add: movedHead_def)
  have ate: "(x ?newHead = x food \<and> y ?newHead = y food) = (?newHead = food)"
    by auto
  show ?thesis
    unfolding stepGame_def list.case Let_def same_cell_ex checkSet_def inGrid_def
      fields [symmetric] movedHead_def [symmetric]
    by (simp only: ate) (auto simp add: not_le not_less)
qed

lemma stepGame_stopped:
  assumes "\<not> inGrid (movedHead head direction)
      \<or> movedHead head direction \<in> set (checkSet (head # body) (movedHead head direction) food)"
  shows "stepGame rnd (head # body) direction food =
      Inr \<lparr>nextSnake = head # body, nextFood = food, ateFood = False, isGameOver = True\<rparr>"
  using assms by (simp add: stepGame_Cons Let_def)

lemma stepGame_moved:
  assumes "inGrid (movedHead head direction)"
    and "movedHead head direction \<notin> set (checkSet (head # body) (movedHead head direction) food)"
  shows "stepGame rnd (head # body) direction food =
      Inr \<lparr>nextSnake = (if movedHead head direction = food
                          then movedHead head direction # head # body
                          else movedHead head direction # butlast (head # body)),
           nextFood = (if movedHead head direction = food
                       then spawnFood rnd (movedHead head direction # head # body)
                       else food),
           ateFood = (movedHead head direction = food),
           isGameOver = False\<rparr>"
  using assms by (simp add: stepGame_Cons Let_def)

lemma stepGame_total: "\<exists>result. stepGame rnd (head # body) direction food = Inr result"
  by (simp add: stepGame_Cons Let_def)

text \<open>
  Claim C1. When the new head (the head plus the unit vector of the heading) lies inside
  the grid and is not in the collision check set, the step is not a game over,
  \<open>ateFood\<close> tells whether the new head is on the food, the next snake is the new head
  in front of the body, without its last cell exactly when no food was eaten, and the
  next food is the old food when nothing was eaten and a cell spawned against the new
  body otherwise. In particular the snake \<open>[(12,12), (11,12), (10,12)]\<close> heading right
  with food at \<open>(13,12)\<close> becomes \<open>[(13,12), (12,12), (11,12), (10,12)]\<close>, eats, and
  the new food lies outside the new body.
\<close>

theorem stepGame_advances:
  "(inGrid (movedHead head direction)
      \<and> movedHead head direction
          \<notin> set (checkSet (head # body) (movedHead head direction) food)
    \<longrightarrow> (\<exists>result. stepGame rnd (head # body) direction food = Inr result
          \<and> isGameOver result = False
          \<and> ateFood result = (movedHead head direction = food)
          \<and> nextSnake result = movedHead head direction #
               (if ateFood result then head # body else butlast (head # body))
          \<and> nextFood result =
               (if ateFood result then spawnFood rnd (nextSnake result) else food)))
   \<and> (0 \<le> rnd \<and> rnd < 1
    \<longrightarrow> (\<exists>result. stepGame rnd [\<lparr>x = 12, y = 12\<rparr>, \<lparr>x = 11, y = 12\<rparr>, \<lparr>x = 10, y = 12\<rparr>]
                       Right \<lparr>x = 13, y = 12\<rparr> = Inr result
          \<and> nextSnake result =
               [\<lparr>x = 13, y = 12\<rparr>, \<lparr>x = 12, y = 12\<rparr>, \<lparr>x = 11, y = 12\<rparr>, \<lparr>x = 10, y = 12\<rparr>]
          \<and> ateFood result = True
          \<and> isGameOver result = False
          \<and> inGrid (nextFood result)
          \<and> nextFood result \<notin> set (nextSnake result)))"
proof (intro conjI impI)
  assume "inGrid (movedHead head direction)
      \<and> movedHead head direction
          \<notin> set (checkSet (head # body) (movedHead head direction) food)"
  then show "\<exists>result. stepGame rnd (head # body) direction food = Inr result
          \<and> isGameOver result = False
          \<and> ateFood result = (movedHead head direction = food)
          \<and> nextSnake result = movedHead head direction #
               (if ateFood result then head # body else butlast (head # body))
          \<and> nextFood result =
               (if ateFood result then spawnFood rnd (nextSnake result) else food)"
    by (simp add: stepGame_moved del: butlast.simps)
next
  let ?snake = "[\<lparr>x = 12, y = 12\<rparr>, \<lparr>x = 11, y = 12\<rparr>, \<lparr>x = 10, y = 12\<rparr>]"
  let ?grown = "\<lparr>x = 13, y = 12\<rparr> # ?snake"
  assume rnd: "0 \<le> rnd \<and> rnd < 1"
  have moved: "movedHead \<lparr>x = 12, y = 12\<rparr> Right = \<lparr>x = 13, y = 12\<rparr>"
    by (simp add: movedHead_def)
  have "inGrid \<lparr>x = 13, y = 12\<rparr>"
    by (simp add: inGrid_def GRID_SIZE_def)
  then have step: "stepGame rnd ?snake Right \<lparr>x = 13, y = 12\<rparr> =
      Inr \<lparr>nextSnake = ?grown, nextFood = spawnFood rnd ?grown, ateFood = True,
           isGameOver = False\<rparr>"
    by (simp add: stepGame_Cons Let_def moved checkSet_def)
  have "inGrid \<lparr>x = 0, y = 0\<rparr> \<and> \<lparr>x = 0, y = 0\<rparr> \<notin> set ?grown"
    by (simp add: inGrid_def GRID_SIZE_def)
  with rnd have "inGrid (spawnFood rnd ?grown) \<and> spawnFood rnd ?grown \<notin> set ?grown"
    using spawnFood_free_cell by blast
  with step show "\<exists>result. stepGame rnd ?snake Right \<lparr>x = 13, y = 12\<rparr> = Inr result
          \<and> nextSnake result = ?grown
          \<and> ateFood result = True
          \<and> isGameOver result = False
          \<and> inGrid (nextFood result)
          \<and> nextFood result \<notin> set (nextSnake result)"
    by simp
qed

theorem stepGame_advances_witness:
  "inGrid (movedHead \<lparr>x = 12, y = 12\<rparr> Up)
   \<and> movedHead \<lparr>x = 12, y = 12\<rparr> Up
       \<notin> set (checkSet [\<lparr>x = 12, y = 12\<rparr>, \<lparr>x = 11, y = 12\<rparr>, \<lparr>x = 10, y = 12\<rparr>]
                (movedHead \<lparr>x = 12, y = 12\<rparr> Up) \<lparr>x = 13, y = 12\<rparr>)
   \<and> stepGame (1 / 2) [\<lparr>x = 12, y = 12\<rparr>, \<lparr>x = 11, y = 12\<rparr>, \<lparr>x = 10, y = 12\<rparr>]
        Up \<lparr>x = 13, y = 12\<rparr> =
       Inr \<lparr>nextSnake = [\<lparr>x = 12, y = 11\<rparr>, \<lparr>x = 12, y = 12\<rparr>, \<lparr>x = 11, y = 12\<rparr>],
            nextFood = \<lparr>x = 13, y = 12\<rparr>, ateFood = False, isGameOver = False\<rparr>
   \<and> (0::real) \<le> 1 / 2 \<and> (1 / 2 :: real) < 1
   \<and> (\<exists>result. stepGame (1 / 2) [\<lparr>x = 12, y = 12\<rparr>, \<lparr>x = 11, y = 12\<rparr>, \<lparr>x = 10, y = 12\<rparr>]
                   Right \<lparr>x = 13, y = 12\<rparr> = Inr result
          \<and> nextSnake result =
               [\<lparr>x = 13, y = 12\<rparr>, \<lparr>x = 12, y = 12\<rparr>, \<lparr>x = 11, y = 12\<rparr>, \<lparr>x = 10, y = 12\<rparr>]
          \<and> ateFood result = True
          \<and> nextFood result \<notin> set (nextSnake result))"
proof -
  let ?snake = "[\<lparr>x = 12, y = 12\<rparr>, \<lparr>x = 11, y = 12\<rparr>, \<lparr>x = 10, y = 12\<rparr>]"
  have moved: "movedHead \<lparr>x = 12, y = 12\<rparr> Up = \<lparr>x = 12, y = 11\<rparr>"
    by (simp add: movedHead_def)
  have pre: "inGrid (movedHead \<lparr>x = 12, y = 12\<rparr> Up)
      \<and> movedHead \<lparr>x = 12, y = 12\<rparr> Up
          \<notin> set (checkSet ?snake (movedHead \<lparr>x = 12, y = 12\<rparr> Up) \<lparr>x = 13, y = 12\<rparr>)"
    by (simp add: moved inGrid_def GRID_SIZE_def checkSet_def)
  with stepGame_advances [of "\<lparr>x = 12, y = 12\<rparr>" Up "[\<lparr>x = 11, y = 12\<rparr>, \<lparr>x = 10, y = 12\<rparr>]"
      "\<lparr>x = 13, y = 12\<rparr>" "1 / 2"]
  obtain result where
    r: "stepGame (1 / 2) ?snake Up \<lparr>x = 13, y = 12\<rparr> = Inr result"
      "isGameOver result = False"
      "ateFood result = (movedHead \<lparr>x = 12, y = 12\<rparr> Up = \<lparr>x = 13, y = 12\<rparr>)"
      "nextSnake result = movedHead \<lparr>x = 12, y = 12\<rparr> Up #
         (if ateFood result then ?snake else butlast ?snake)"
      "nextFood result = (if ateFood result then spawnFood (1 / 2) (nextSnake result)
                          else \<lparr>x = 13, y = 12\<rparr>)"
    by blast
  from r(3) have ate: "ateFood result = False"
    by (simp add: moved)
  with r(2,4,5) have "result =
      \<lparr>nextSnake = [\<lparr>x = 12, y = 11\<rparr>, \<lparr>x = 12, y = 12\<rparr>, \<lparr>x = 11, y = 12\<rparr>],
       nextFood = \<lparr>x = 13, y = 12\<rparr>, ateFood = False, isGameOver = False\<rparr>"
    by (simp add: moved)
  with r(1) have first: "stepGame (1 / 2) ?snake Up \<lparr>x = 13, y = 12\<rparr> =
      Inr \<lparr>nextSnake = [\<lparr>x = 12, y = 11\<rparr>, \<lparr>x = 12, y = 12\<rparr>, \<lparr>x = 11, y = 12\<rparr>],
           nextFood = \<lparr>x = 13, y = 12\<rparr>, ateFood = False, isGameOver = False\<rparr>"
    by simp
  have "\<exists>result. stepGame (1 / 2) ?snake Right \<lparr>x = 13, y = 12\<rparr> = Inr result
          \<and> nextSnake result =
               [\<lparr>x = 13, y = 12\<rparr>, \<lparr>x = 12, y = 12\<rparr>, \<lparr>x = 11, y = 12\<rparr>, \<lparr>x = 10, y = 12\<rparr>]
          \<and> ateFood result = True
          \<and> nextFood result \<notin> set (nextSnake result)"
    using stepGame_advances [of "\<lparr>x = 12, y = 12\<rparr>" Up "[\<lparr>x = 11, y = 12\<rparr>, \<lparr>x = 10, y = 12\<rparr>]"
      "\<lparr>x = 13, y = 12\<rparr>" "1 / 2"]
    by auto
  with pre first show ?thesis
    by simp
qed

text \<open>
  Claim C2. A step of a non-empty snake is a game over exactly when the new head lies
  outside the grid or is in the check set (the whole body when the new head is on the
  food, the body without its tail cell otherwise); in every game-over case the returned
  snake and food are the ones passed in.
\<close>

theorem stepGame_game_over_iff:
  "\<exists>result. stepGame rnd (head # body) direction food = Inr result
     \<and> (isGameOver result \<longleftrightarrow>
          \<not> inGrid (movedHead head direction)
          \<or> movedHead head direction
              \<in> set (if movedHead head direction = food then head # body
                      else butlast (head # body)))
     \<and> (isGameOver result \<longrightarrow> nextSnake result = head # body \<and> nextFood result = food)"
  by (simp add: stepGame_Cons Let_def checkSet_def del: butlast.simps)

theorem stepGame_game_over_iff_witness:
  "\<not> inGrid (movedHead \<lparr>x = 0, y = 12\<rparr> Left)
   \<and> (\<exists>result. stepGame (1 / 2) [\<lparr>x = 0, y = 12\<rparr>, \<lparr>x = 1, y = 12\<rparr>, \<lparr>x = 2, y = 12\<rparr>]
                   Left \<lparr>x = 5, y = 5\<rparr> = Inr result
         \<and> isGameOver result
         \<and> nextSnake result = [\<lparr>x = 0, y = 12\<rparr>, \<lparr>x = 1, y = 12\<rparr>, \<lparr>x = 2, y = 12\<rparr>]
         \<and> nextFood result = \<lparr>x = 5, y = 5\<rparr>)
   \<and> inGrid (movedHead \<lparr>x = 5, y = 5\<rparr> Down)
   \<and> movedHead \<lparr>x = 5, y = 5\<rparr> Down \<notin> set [\<lparr>x = 5, y = 5\<rparr>, \<lparr>x = 4, y = 5\<rparr>]
   \<and> (\<exists>result. stepGame (1 / 2) [\<lparr>x = 5, y = 5\<rparr>, \<lparr>x = 4, y = 5\<rparr>, \<lparr>x = 4, y = 6\<rparr>]
                   Down \<lparr>x = 9, y = 9\<rparr> = Inr result
         \<and> \<not> isGameOver result)"
proof -
  have out: "\<not> inGrid (movedHead \<lparr>x = 0, y = 12\<rparr> Left)"
    by (simp add: movedHead_def inGrid_def)
  have inside: "inGrid (movedHead \<lparr>x = 5, y = 5\<rparr> Down)
      \<and> movedHead \<lparr>x = 5, y = 5\<rparr> Down \<notin> set [\<lparr>x = 5, y = 5\<rparr>, \<lparr>x = 4, y = 5\<rparr>]
      \<and> movedHead \<lparr>x = 5, y = 5\<rparr> Down \<noteq> \<lparr>x = 9, y = 9\<rparr>"
    by (simp add: movedHead_def inGrid_def GRID_SIZE_def)
  from out have "\<exists>result. stepGame (1 / 2) [\<lparr>x = 0, y = 12\<rparr>, \<lparr>x = 1, y = 12\<rparr>, \<lparr>x = 2, y = 12\<rparr>]
                   Left \<lparr>x = 5, y = 5\<rparr> = Inr result
         \<and> isGameOver result
         \<and> nextSnake result = [\<lparr>x = 0, y = 12\<rparr>, \<lparr>x = 1, y = 12\<rparr>, \<lparr>x = 2, y = 12\<rparr>]
         \<and> nextFood result = \<lparr>x = 5, y = 5\<rparr>"
    using stepGame_game_over_iff [of "1 / 2" "\<lparr>x = 0, y = 12\<rparr>"
        "[\<lparr>x = 1, y = 12\<rparr>, \<lparr>x = 2, y = 12\<rparr>]" Left "\<lparr>x = 5, y = 5\<rparr>"]
    by auto
  moreover from inside
  have "\<exists>result. stepGame (1 / 2) [\<lparr>x = 5, y = 5\<rparr>, \<lparr>x = 4, y = 5\<rparr>, \<lparr>x = 4, y = 6\<rparr>]
                   Down \<lparr>x = 9, y = 9\<rparr> = Inr result
         \<and> \<not> isGameOver result"
    using stepGame_game_over_iff [of "1 / 2" "\<lparr>x = 5, y = 5\<rparr>"
        "[\<lparr>x = 4, y = 5\<rparr>, \<lparr>x = 4, y = 6\<rparr>]" Down "\<lparr>x = 9, y = 9\<rparr>"]
    by auto
  ultimately show ?thesis
    using out inside by simp
qed

text \<open>
  Claim C10. Whenever a step is a game over it reports \<open>ateFood = False\<close>, also when the
  new head is on the food cell (the food then coincides with a body segment).
\<close>

theorem stepGame_game_over_not_ate:
  "stepGame rnd snake direction food = Inr result \<and> isGameOver result
     \<longrightarrow> ateFood result = False"
proof (cases snake)
  case Nil
  then show ?thesis
    by (simp add: stepGame_empty)
next
  case (Cons head body)
  then show ?thesis
    by (auto simp add: stepGame_Cons Let_def split: if_splits)
qed

theorem stepGame_game_over_not_ate_witness:
  "movedHead \<lparr>x = 12, y = 12\<rparr> Left = \<lparr>x = 11, y = 12\<rparr>
   \<and> (\<exists>result. stepGame (1 / 2) [\<lparr>x = 12, y = 12\<rparr>, \<lparr>x = 11, y = 12\<rparr>, \<lparr>x = 10, y = 12\<rparr>]
                   Left \<lparr>x = 11, y = 12\<rparr> = Inr result
         \<and> isGameOver result
         \<and> ateFood result = False)"
proof -
  let ?snake = "[\<lparr>x = 12, y = 12\<rparr>, \<lparr>x = 11, y = 12\<rparr>, \<lparr>x = 10, y = 12\<rparr>]"
  have moved: "movedHead \<lparr>x = 12, y = 12\<rparr> Left = \<lparr>x = 11, y = 12\<rparr>"
    by (simp add: movedHead_def)
  then have "stepGame (1 / 2) ?snake Left \<lparr>x = 11, y = 12\<rparr> =
       Inr \<lparr>nextSnake = ?snake, nextFood = \<lparr>x = 11, y = 12\<rparr>, ateFood = False,
            isGameOver = True\<rparr>"
    by (simp add: stepGame_stopped checkSet_def)
  then obtain result
    where step: "stepGame (1 / 2) ?snake Left \<lparr>x = 11, y = 12\<rparr> = Inr result"
      and over: "isGameOver result"
    by simp
  then have "ateFood result = False"
    using stepGame_game_over_not_ate [of "1 / 2" ?snake Left "\<lparr>x = 11, y = 12\<rparr>" result]
    by blast
  with moved step over show ?thesis
    by blast
qed

section \<open>The body never overlaps itself\<close>

lemma stepGame_distinct:
  assumes "distinct snake" and "stepGame rnd snake direction food = Inr result"
  shows "distinct (nextSnake result)"
proof (cases snake)
  case Nil
  with assms(2) show ?thesis
    by (simp add: stepGame_empty)
next
  case (Cons head body)
  let ?newHead = "movedHead head direction"
  show ?thesis
  proof (cases "\<not> inGrid ?newHead \<or> ?newHead \<in> set (checkSet (head # body) ?newHead food)")
    case True
    then have "stepGame rnd (head # body) direction food =
        Inr \<lparr>nextSnake = head # body, nextFood = food, ateFood = False, isGameOver = True\<rparr>"
      by (rule stepGame_stopped)
    with assms Cons show ?thesis
      by auto
  next
    case False
    then have free: "?newHead \<notin> set (checkSet (head # body) ?newHead food)"
      and "inGrid ?newHead"
      by simp_all
    then have step: "stepGame rnd (head # body) direction food =
        Inr \<lparr>nextSnake = (if ?newHead = food then ?newHead # head # body
                            else ?newHead # butlast (head # body)),
             nextFood = (if ?newHead = food then spawnFood rnd (?newHead # head # body)
                         else food),
             ateFood = (?newHead = food),
             isGameOver = False\<rparr>"
      by (simp add: stepGame_moved)
    from assms(1) Cons have "distinct (butlast (head # body))"
      using distinct_butlast by blast
    with free assms Cons step show ?thesis
      by (auto simp add: checkSet_def simp del: butlast.simps split: if_splits)
  qed
qed

lemma stepGame_nonempty:
  assumes "stepGame rnd snake direction food = Inr result"
  shows "snake \<noteq> [] \<and> nextSnake result \<noteq> []"
proof (cases snake)
  case Nil
  with assms show ?thesis
    by (simp add: stepGame_empty)
next
  case (Cons head body)
  with assms show ?thesis
    by (auto simp add: stepGame_Cons Let_def split: if_splits)
qed

lemma stepGame_length:
  assumes "stepGame rnd snake direction food = Inr result"
  shows "length (nextSnake result) = (if ateFood result then length snake + 1 else length snake)"
proof (cases snake)
  case Nil
  with assms show ?thesis
    by (simp add: stepGame_empty)
next
  case (Cons head body)
  with assms show ?thesis
    by (auto simp add: stepGame_Cons Let_def split: if_splits)
qed

lemma createInitialSnake_distinct: "distinct createInitialSnake \<and> createInitialSnake \<noteq> []"
  by (simp add: createInitialSnake_def Let_def)

lemma timerCallback_result:
  assumes "snakeState s \<noteq> []"
  shows "\<exists>result s'. stepGame rnd (snakeState s) (activeDirection s) (foodState s) = Inr result
      \<and> timerCallback rnd s = Inr s'
      \<and> snakeState s' = nextSnake result
      \<and> foodState s' = nextFood result
      \<and> scoreState s' = (if ateFood result then scoreState s + 1 else scoreState s)"
proof -
  from assms obtain head body where "snakeState s = head # body"
    by (cases "snakeState s") auto
  then obtain result
    where "stepGame rnd (snakeState s) (activeDirection s) (foodState s) = Inr result"
    using stepGame_total by metis
  then show ?thesis
    by (simp add: timerCallback_def commitDirection_def Let_def)
qed

lemma dispatch_bodyOk:
  assumes "bodyOk s"
  shows "\<exists>s'. dispatch e s = Inr s' \<and> bodyOk s'"
proof (cases e)
  case (KeyDown key)
  with assms show ?thesis
    by (simp add: onKeyDown_def applyInputDirection_def bodyOk_def split: option.splits)
next
  case (TimerFired rnd)
  show ?thesis
  proof (cases "\<not> isStartedState s \<or> isPausedState s \<or> isGameOverState s")
    case True
    with assms TimerFired show ?thesis
      by (simp add: tick_def)
  next
    case False
    from assms have "snakeState s \<noteq> []"
      by (simp add: bodyOk_def)
    then obtain result s'
      where r: "stepGame rnd (snakeState s) (activeDirection s) (foodState s) = Inr result"
        and s': "timerCallback rnd s = Inr s'" "snakeState s' = nextSnake result"
      using timerCallback_result by blast
    from assms r have "distinct (nextSnake result)" "nextSnake result \<noteq> []"
      using stepGame_distinct stepGame_nonempty by (auto simp add: bodyOk_def)
    with s' False TimerFired show ?thesis
      by (simp add: tick_def bodyOk_def)
  qed
next
  case (ClickStart rnd)
  with assms show ?thesis
    by (simp add: clickStart_def resetGame_def bodyOk_def createInitialSnake_distinct Let_def)
next
  case ClickPause
  with assms show ?thesis
    by (simp add: clickPause_def bodyOk_def)
next
  case (ClickRestart rnd)
  with assms show ?thesis
    by (simp add: clickRestart_def resetGame_def bodyOk_def createInitialSnake_distinct Let_def)
qed

lemma run_bodyOk:
  assumes "bodyOk s"
  shows "\<exists>s'. run s events = Inr s' \<and> bodyOk s'"
  using assms
proof (induction events arbitrary: s)
  case Nil
  then show ?case by simp
next
  case (Cons e events)
  from Cons.prems obtain s1 where "dispatch e s = Inr s1" "bodyOk s1"
    using dispatch_bodyOk by blast
  with Cons.IH [of s1] show ?case
    by simp
qed

text \<open>
  Claim C3. Every state the page can reach from its initial state, by any sequence of
  key presses, timer ticks and button clicks, has a body without duplicate cells (so in
  particular every state that is not a game over has); and a step that is not a game
  over turns a body without duplicates into a body without duplicates.
\<close>

theorem snake_has_no_duplicates:
  "(\<exists>s. run (initialHomePage rnd0) events = Inr s \<and> distinct (snakeState s))
   \<and> (distinct snake \<and> stepGame rnd snake direction food = Inr result
        \<and> \<not> isGameOver result
      \<longrightarrow> distinct (nextSnake result))"
proof (intro conjI impI)
  have "bodyOk (initialHomePage rnd0)"
    by (simp add: bodyOk_def initialHomePage_def createInitialSnake_distinct)
  then show "\<exists>s. run (initialHomePage rnd0) events = Inr s \<and> distinct (snakeState s)"
    using run_bodyOk bodyOk_def by blast
next
  assume "distinct snake \<and> stepGame rnd snake direction food = Inr result
        \<and> \<not> isGameOver result"
  then show "distinct (nextSnake result)"
    using stepGame_distinct by blast
qed

theorem snake_has_no_duplicates_witness:
  "distinct [\<lparr>x = 5, y = 5\<rparr>, \<lparr>x = 4, y = 5\<rparr>, \<lparr>x = 4, y = 6\<rparr>, \<lparr>x = 5, y = 6\<rparr>]
   \<and> (\<exists>result. stepGame (1 / 2)
                   [\<lparr>x = 5, y = 5\<rparr>, \<lparr>x = 4, y = 5\<rparr>, \<lparr>x = 4, y = 6\<rparr>, \<lparr>x = 5, y = 6\<rparr>]
                   Down \<lparr>x = 9, y = 9\<rparr> = Inr result
         \<and> \<not> isGameOver result
         \<and> nextSnake result =
               [\<lparr>x = 5, y = 6\<rparr>, \<lparr>x = 5, y = 5\<rparr>, \<lparr>x = 4, y = 5\<rparr>, \<lparr>x = 4, y = 6\<rparr>]
         \<and> distinct (nextSnake result))"
proof -
  let ?snake = "[\<lparr>x = 5, y = 5\<rparr>, \<lparr>x = 4, y = 5\<rparr>, \<lparr>x = 4, y = 6\<rparr>, \<lparr>x = 5, y = 6\<rparr>]"
  have d: "distinct ?snake"
    by simp
  have moved: "movedHead \<lparr>x = 5, y = 5\<rparr> Down = \<lparr>x = 5, y = 6\<rparr>"
    by (simp add: movedHead_def)
  have "inGrid \<lparr>x = 5, y = 6\<rparr>"
    by (simp add: inGrid_def GRID_SIZE_def)
  then have "stepGame (1 / 2) ?snake Down \<lparr>x = 9, y = 9\<rparr> =
      Inr \<lparr>nextSnake = [\<lparr>x = 5, y = 6\<rparr>, \<lparr>x = 5, y = 5\<rparr>, \<lparr>x = 4, y = 5\<rparr>, \<lparr>x = 4, y = 6\<rparr>],
           nextFood = \<lparr>x = 9, y = 9\<rparr>, ateFood = False, isGameOver = False\<rparr>"
    by (simp add: stepGame_moved moved checkSet_def)
  then obtain result
    where step: "stepGame (1 / 2) ?snake Down \<lparr>x = 9, y = 9\<rparr> = Inr result"
      and alive: "\<not> isGameOver result"
      and body: "nextSnake result =
          [\<lparr>x = 5, y = 6\<rparr>, \<lparr>x = 5, y = 5\<rparr>, \<lparr>x = 4, y = 5\<rparr>, \<lparr>x = 4, y = 6\<rparr>]"
    by simp
  with d have "distinct (nextSnake result)"
    using snake_has_no_duplicates [of "1 / 2" "[]" ?snake "1 / 2" Down "\<lparr>x = 9, y = 9\<rparr>" result]
    by blast
  with d step alive body show ?thesis
    by blast
qed

section \<open>Length and score\<close>

lemma stepGame_over_result:
  assumes "stepGame rnd snake direction food = Inr result" and "isGameOver result"
  shows "nextSnake result = snake \<and> nextFood result = food \<and> ateFood result = False"
proof (cases snake)
  case Nil
  with assms(1) show ?thesis
    by (simp add: stepGame_empty)
next
  case (Cons head body)
  with assms show ?thesis
    by (auto simp add: stepGame_Cons Let_def split: if_splits)
qed

text \<open>
  Claim C8. A step that stays inside the grid and misses the collision set returns a body
  one cell longer when food was eaten and of the same length when it was not; the length
  never decreases and is unchanged on game over; and the timer callback adds exactly one
  to the score, and one cell to the body, on the step that eats.
\<close>

theorem step_length_and_score:
  "(inGrid (movedHead head direction)
      \<and> movedHead head direction
          \<notin> set (checkSet (head # body) (movedHead head direction) food)
    \<longrightarrow> (\<exists>result. stepGame rnd (head # body) direction food = Inr result
          \<and> ateFood result = (movedHead head direction = food)
          \<and> length (nextSnake result) =
               (if ateFood result then length (head # body) + 1 else length (head # body))))
   \<and> (stepGame rnd snake direction food = Inr result
    \<longrightarrow> length snake \<le> length (nextSnake result)
        \<and> length (nextSnake result) \<le> length snake + 1
        \<and> (isGameOver result \<longrightarrow> length (nextSnake result) = length snake))
   \<and> (snakeState s \<noteq> []
    \<longrightarrow> (\<exists>result s'.
          stepGame rnd (snakeState s) (activeDirection s) (foodState s) = Inr result
          \<and> timerCallback rnd s = Inr s'
          \<and> snakeState s' = nextSnake result
          \<and> (ateFood result
               \<longrightarrow> scoreState s' = scoreState s + 1
                   \<and> length (snakeState s') = length (snakeState s) + 1)
          \<and> (\<not> ateFood result
               \<longrightarrow> scoreState s' = scoreState s
                   \<and> length (snakeState s') = length (snakeState s))))"
proof (intro conjI impI)
  assume "inGrid (movedHead head direction)
      \<and> movedHead head direction
          \<notin> set (checkSet (head # body) (movedHead head direction) food)"
  then have "stepGame rnd (head # body) direction food =
      Inr \<lparr>nextSnake = (if movedHead head direction = food
                          then movedHead head direction # head # body
                          else movedHead head direction # butlast (head # body)),
           nextFood = (if movedHead head direction = food
                       then spawnFood rnd (movedHead head direction # head # body)
                       else food),
           ateFood = (movedHead head direction = food),
           isGameOver = False\<rparr>"
    by (simp add: stepGame_moved)
  then show "\<exists>result. stepGame rnd (head # body) direction food = Inr result
          \<and> ateFood result = (movedHead head direction = food)
          \<and> length (nextSnake result) =
               (if ateFood result then length (head # body) + 1 else length (head # body))"
    by simp
next
  assume step: "stepGame rnd snake direction food = Inr result"
  then have len: "length (nextSnake result) =
      (if ateFood result then length snake + 1 else length snake)"
    by (rule stepGame_length)
  then show "length snake \<le> length (nextSnake result)"
    by simp
  from len show "length (nextSnake result) \<le> length snake + 1"
    by simp
  assume "isGameOver result"
  with step show "length (nextSnake result) = length snake"
    by (simp add: stepGame_over_result)
next
  assume "snakeState s \<noteq> []"
  then obtain result s'
    where r: "stepGame rnd (snakeState s) (activeDirection s) (foodState s) = Inr result"
      "timerCallback rnd s = Inr s'"
      "snakeState s' = nextSnake result"
      "scoreState s' = (if ateFood result then scoreState s + 1 else scoreState s)"
    using timerCallback_result by blast
  from r(1) have "length (nextSnake result) =
      (if ateFood result then length (snakeState s) + 1 else length (snakeState s))"
    by (rule stepGame_length)
  with r show "\<exists>result s'.
          stepGame rnd (snakeState s) (activeDirection s) (foodState s) = Inr result
          \<and> timerCallback rnd s = Inr s'
          \<and> snakeState s' = nextSnake result
          \<and> (ateFood result
               \<longrightarrow> scoreState s' = scoreState s + 1
                   \<and> length (snakeState s') = length (snakeState s) + 1)
          \<and> (\<not> ateFood result
               \<longrightarrow> scoreState s' = scoreState s
                   \<and> length (snakeState s') = length (snakeState s))"
    by auto
qed

theorem step_length_and_score_witness:
  "inGrid (movedHead \<lparr>x = 12, y = 12\<rparr> Right)
   \<and> movedHead \<lparr>x = 12, y = 12\<rparr> Right
       \<notin> set (checkSet [\<lparr>x = 12, y = 12\<rparr>, \<lparr>x = 11, y = 12\<rparr>, \<lparr>x = 10, y = 12\<rparr>]
                (movedHead \<lparr>x = 12, y = 12\<rparr> Right) \<lparr>x = 13, y = 12\<rparr>)
   \<and> (\<exists>result. stepGame (1 / 2) [\<lparr>x = 12, y = 12\<rparr>, \<lparr>x = 11, y = 12\<rparr>, \<lparr>x = 10, y = 12\<rparr>]
                   Right \<lparr>x = 13, y = 12\<rparr> = Inr result
         \<and> ateFood result
         \<and> length (nextSnake result) = 4)
   \<and> (\<exists>result. stepGame (1 / 2) [\<lparr>x = 0, y = 12\<rparr>, \<lparr>x = 1, y = 12\<rparr>, \<lparr>x = 2, y = 12\<rparr>]
                   Left \<lparr>x = 5, y = 5\<rparr> = Inr result
         \<and> isGameOver result
         \<and> length (nextSnake result) = 3)
   \<and> snakeState ((startedGame (1 / 3) (1 / 2))\<lparr>foodState := \<lparr>x = 13, y = 12\<rparr>\<rparr>) \<noteq> []
   \<and> (\<exists>s'. timerCallback (1 / 2)
                ((startedGame (1 / 3) (1 / 2))\<lparr>foodState := \<lparr>x = 13, y = 12\<rparr>\<rparr>) = Inr s'
         \<and> scoreState s' = 1
         \<and> length (snakeState s') = 4)"
proof -
  let ?snake = "[\<lparr>x = 12, y = 12\<rparr>, \<lparr>x = 11, y = 12\<rparr>, \<lparr>x = 10, y = 12\<rparr>]"
  let ?wall = "[\<lparr>x = 0, y = 12\<rparr>, \<lparr>x = 1, y = 12\<rparr>, \<lparr>x = 2, y = 12\<rparr>]"
  let ?s = "(startedGame (1 / 3) (1 / 2))\<lparr>foodState := \<lparr>x = 13, y = 12\<rparr>\<rparr>"
  have moved: "movedHead \<lparr>x = 12, y = 12\<rparr> Right = \<lparr>x = 13, y = 12\<rparr>"
    by (simp add: movedHead_def)
  have pre: "inGrid (movedHead \<lparr>x = 12, y = 12\<rparr> Right)
      \<and> movedHead \<lparr>x = 12, y = 12\<rparr> Right
          \<notin> set (checkSet ?snake (movedHead \<lparr>x = 12, y = 12\<rparr> Right) \<lparr>x = 13, y = 12\<rparr>)"
    by (simp add: moved inGrid_def GRID_SIZE_def checkSet_def)
  then have grow: "\<exists>result. stepGame (1 / 2) ?snake Right \<lparr>x = 13, y = 12\<rparr> = Inr result
         \<and> ateFood result \<and> length (nextSnake result) = 4"
    using step_length_and_score [where head = "\<lparr>x = 12, y = 12\<rparr>" and direction = Right
          and body = "[\<lparr>x = 11, y = 12\<rparr>, \<lparr>x = 10, y = 12\<rparr>]"
          and food = "\<lparr>x = 13, y = 12\<rparr>" and rnd = "1 / 2", THEN conjunct1]
    by (auto simp add: moved)
  have "\<not> inGrid (movedHead \<lparr>x = 0, y = 12\<rparr> Left)"
    by (simp add: movedHead_def inGrid_def)
  then have "stepGame (1 / 2) ?wall Left \<lparr>x = 5, y = 5\<rparr> =
      Inr \<lparr>nextSnake = ?wall, nextFood = \<lparr>x = 5, y = 5\<rparr>, ateFood = False, isGameOver = True\<rparr>"
    by (simp add: stepGame_stopped)
  then obtain result
    where w: "stepGame (1 / 2) ?wall Left \<lparr>x = 5, y = 5\<rparr> = Inr result" "isGameOver result"
    by simp
  then have "length (nextSnake result) = length ?wall"
    using step_length_and_score [where rnd = "1 / 2" and snake = ?wall and direction = Left
          and food = "\<lparr>x = 5, y = 5\<rparr>" and result = result,
        THEN conjunct2, THEN conjunct1]
    by blast
  with w have over: "\<exists>result. stepGame (1 / 2) ?wall Left \<lparr>x = 5, y = 5\<rparr> = Inr result
         \<and> isGameOver result \<and> length (nextSnake result) = 3"
    by auto
  have state: "snakeState ?s = ?snake" "activeDirection ?s = Right"
    "foodState ?s = \<lparr>x = 13, y = 12\<rparr>" "scoreState ?s = 0"
    by (simp_all add: startedGame_def clickStart_def resetGame_def initialHomePage_def
        createInitialSnake_def GRID_SIZE_def activeDirection_def Let_def)
  then have nonempty: "snakeState ?s \<noteq> []"
    by simp
  then obtain result' s'
    where t: "stepGame (1 / 2) (snakeState ?s) (activeDirection ?s) (foodState ?s) = Inr result'"
      "timerCallback (1 / 2) ?s = Inr s'"
      "ateFood result'
         \<longrightarrow> scoreState s' = scoreState ?s + 1
             \<and> length (snakeState s') = length (snakeState ?s) + 1"
    using step_length_and_score [where rnd = "1 / 2" and s = ?s,
        THEN conjunct2, THEN conjunct2]
    by blast
  from t(1) grow have "ateFood result'"
    by (auto simp add: state)
  with t(3) have "scoreState s' = 1 \<and> length (snakeState s') = 4"
    by (simp add: state)
  with t(2) have timer: "\<exists>s'. timerCallback (1 / 2) ?s = Inr s'
         \<and> scoreState s' = 1 \<and> length (snakeState s') = 4"
    by blast
  from pre grow over nonempty timer show ?thesis
    by blast
qed

section \<open>The direction resolver\<close>

text \<open>
  Lower-casing two characters gives the same character exactly when they are the same
  letter up to case; so comparing the lower-cased key with a lower-case name is comparing
  the key with the name up to case.
\<close>

lemma specCasePairs_iff:
  "(a, b) \<in> set specCasePairs \<longleftrightarrow>
     65 \<le> (of_char a :: nat) \<and> (of_char a :: nat) \<le> 90 \<and> (of_char b :: nat) = of_char a + 32"
proof
  assume "(a, b) \<in> set specCasePairs"
  then show "65 \<le> (of_char a :: nat) \<and> (of_char a :: nat) \<le> 90
      \<and> (of_char b :: nat) = of_char a + 32"
    by (auto simp add: specCasePairs_def)
next
  assume r: "65 \<le> (of_char a :: nat) \<and> (of_char a :: nat) \<le> 90
      \<and> (of_char b :: nat) = of_char a + 32"
  define n where "n = (of_char a :: nat)"
  with r have a: "a = char_of n" and b: "b = char_of (n + 32)" and "65 \<le> n" "n \<le> 90"
    by (simp_all add: n_def) (metis char_of_char)
  then have "n = 65 \<or> n = 66 \<or> n = 67 \<or> n = 68 \<or> n = 69 \<or> n = 70 \<or> n = 71 \<or> n = 72
      \<or> n = 73 \<or> n = 74 \<or> n = 75 \<or> n = 76 \<or> n = 77 \<or> n = 78 \<or> n = 79 \<or> n = 80
      \<or> n = 81 \<or> n = 82 \<or> n = 83 \<or> n = 84 \<or> n = 85 \<or> n = 86 \<or> n = 87 \<or> n = 88
      \<or> n = 89 \<or> n = 90"
    by arith
  then show "(a, b) \<in> set specCasePairs"
    unfolding a b specCasePairs_def
    by (elim disjE) (simp_all add: char_of_eq_iff)
qed

lemma of_char_toLowerCase_char:
  "(of_char (toLowerCase_char c) :: nat) =
     (if 65 \<le> (of_char c :: nat) \<and> (of_char c :: nat) \<le> 90 then of_char c + 32 else of_char c)"
  by (simp add: toLowerCase_char_def Let_def)

lemma toLowerCase_char_eq_iff:
  "toLowerCase_char a = toLowerCase_char b \<longleftrightarrow> specSameLetter a b"
proof -
  have "toLowerCase_char a = toLowerCase_char b \<longleftrightarrow>
      (of_char (toLowerCase_char a) :: nat) = of_char (toLowerCase_char b)"
    by simp
  also have "\<dots> \<longleftrightarrow> (of_char a :: nat) = of_char b
      \<or> (65 \<le> (of_char a :: nat) \<and> (of_char a :: nat) \<le> 90
            \<and> (of_char b :: nat) = of_char a + 32)
      \<or> (65 \<le> (of_char b :: nat) \<and> (of_char b :: nat) \<le> 90
            \<and> (of_char a :: nat) = of_char b + 32)"
    unfolding of_char_toLowerCase_char by auto
  also have "\<dots> \<longleftrightarrow> specSameLetter a b"
    by (simp add: specSameLetter_def specCasePairs_iff)
  finally show ?thesis .
qed

lemma toLowerCase_eq_iff: "toLowerCase s = toLowerCase t \<longleftrightarrow> specSameKey s t"
proof (induction s arbitrary: t)
  case Nil
  then show ?case
    by (simp add: toLowerCase_def specSameKey_def)
next
  case (Cons c s)
  then show ?case
    by (cases t) (simp_all add: toLowerCase_def specSameKey_def toLowerCase_char_eq_iff)
qed

lemma toLowerCase_key_names:
  "toLowerCase ''ArrowUp'' = ''arrowup''"
  "toLowerCase ''ArrowRight'' = ''arrowright''"
  "toLowerCase ''ArrowDown'' = ''arrowdown''"
  "toLowerCase ''ArrowLeft'' = ''arrowleft''"
  "toLowerCase ''w'' = ''w''"
  "toLowerCase ''a'' = ''a''"
  "toLowerCase ''d'' = ''d''"
  by (simp_all add: toLowerCase_def toLowerCase_char_def char_of_eq_iff)

lemma LEFT_TURN_cycle: "LEFT_TURN d = cycleSuccessor specLeftTurnCycle d"
  by (cases d) (simp_all add: cycleSuccessor_def specLeftTurnCycle_def)

lemma RIGHT_TURN_cycle: "RIGHT_TURN d = cycleSuccessor (rev specLeftTurnCycle) d"
  by (cases d) (simp_all add: cycleSuccessor_def specLeftTurnCycle_def)

text \<open>
  Claim C6. \<open>resolveDirectionInput\<close> maps, whatever the case of the letters, the four
  arrow-key names to their headings, \<open>w\<close> to the current heading, \<open>a\<close> to the left turn
  and \<open>d\<close> to the right turn of the current heading, and every other key to \<open>None\<close>. The
  left turn is the successor in the cycle up, left, down, right, and the right turn the
  successor in the reversed cycle. The result depends on the two arguments only: it is a
  function of them.
\<close>

theorem resolveDirectionInput_spec:
  "resolveDirectionInput key currentDirection =
     (if specSameKey key ''ArrowUp'' then Some Up
      else if specSameKey key ''ArrowRight'' then Some Right
      else if specSameKey key ''ArrowDown'' then Some Down
      else if specSameKey key ''ArrowLeft'' then Some Left
      else if specSameKey key ''w'' then Some currentDirection
      else if specSameKey key ''a''
        then Some (cycleSuccessor specLeftTurnCycle currentDirection)
      else if specSameKey key ''d''
        then Some (cycleSuccessor (rev specLeftTurnCycle) currentDirection)
      else None)
   \<and> LEFT_TURN currentDirection = cycleSuccessor specLeftTurnCycle currentDirection
   \<and> RIGHT_TURN currentDirection = cycleSuccessor (rev specLeftTurnCycle) currentDirection
   \<and> specLeftTurnCycle = [Up, Left, Down, Right]"
proof -
  have same: "specSameKey key name \<longleftrightarrow> toLowerCase key = toLowerCase name" for name
    by (simp add: toLowerCase_eq_iff)
  show ?thesis
    unfolding same toLowerCase_key_names
    by (simp add: resolveDirectionInput_def Let_def LEFT_TURN_cycle RIGHT_TURN_cycle
        specLeftTurnCycle_def)
qed

theorem resolveDirectionInput_spec_witness:
  "resolveDirectionInput ''ARROWUP'' Right = Some Up
   \<and> resolveDirectionInput ''ArrowRight'' Up = Some Right
   \<and> resolveDirectionInput ''arrowdown'' Left = Some Down
   \<and> resolveDirectionInput ''ArrowLEFT'' Up = Some Left
   \<and> resolveDirectionInput ''W'' Down = Some Down
   \<and> resolveDirectionInput ''a'' Up = Some Left
   \<and> resolveDirectionInput ''A'' Left = Some Down
   \<and> resolveDirectionInput ''d'' Up = Some Right
   \<and> resolveDirectionInput ''D'' Right = Some Down
   \<and> resolveDirectionInput ''s'' Up = None
   \<and> resolveDirectionInput ''Enter'' Up = None
   \<and> resolveDirectionInput '' '' Up = None"
proof -
  have pairs: "specCasePairs =
      [(CHR ''A'', CHR ''a''), (CHR ''B'', CHR ''b''), (CHR ''C'', CHR ''c''),
       (CHR ''D'', CHR ''d''), (CHR ''E'', CHR ''e''), (CHR ''F'', CHR ''f''),
       (CHR ''G'', CHR ''g''), (CHR ''H'', CHR ''h''), (CHR ''I'', CHR ''i''),
       (CHR ''J'', CHR ''j''), (CHR ''K'', CHR ''k''), (CHR ''L'', CHR ''l''),
       (CHR ''M'', CHR ''m''), (CHR ''N'', CHR ''n''), (CHR ''O'', CHR ''o''),
       (CHR ''P'', CHR ''p''), (CHR ''Q'', CHR ''q''), (CHR ''R'', CHR ''r''),
       (CHR ''S'', CHR ''s''), (CHR ''T'', CHR ''t''), (CHR ''U'', CHR ''u''),
       (CHR ''V'', CHR ''v''), (CHR ''W'', CHR ''w''), (CHR ''X'', CHR ''x''),
       (CHR ''Y'', CHR ''y''), (CHR ''Z'', CHR ''z'')]"
    by (simp add: specCasePairs_def)
  show ?thesis
    unfolding resolveDirectionInput_spec [THEN conjunct1]
    by (simp add: specSameKey_def specSameLetter_def pairs cycleSuccessor_def
        specLeftTurnCycle_def)
qed

section \<open>Queuing a heading\<close>

text \<open>
  Claim C5. \<open>applyInputDirection\<close> leaves the state as it is exactly when the request
  is the opposite of the pending heading, if one is queued, and of the committed heading
  otherwise; an accepted request becomes the pending heading, replacing the one that was
  there, so that of two accepted requests only the second is held.
\<close>

theorem applyInputDirection_spec:
  "(pendingDirectionRef s = Some pending
      \<longrightarrow> applyInputDirection requested s =
          (if requested = OPPOSITE_DIRECTION pending then s
           else s\<lparr>pendingDirectionRef := Some requested\<rparr>))
   \<and> (pendingDirectionRef s = None
      \<longrightarrow> applyInputDirection requested s =
          (if requested = OPPOSITE_DIRECTION (directionRef s) then s
           else s\<lparr>pendingDirectionRef := Some requested\<rparr>))
   \<and> (first \<noteq> OPPOSITE_DIRECTION
                 (case pendingDirectionRef s of None \<Rightarrow> directionRef s
                  | Some pending \<Rightarrow> pending)
        \<and> second \<noteq> OPPOSITE_DIRECTION first
      \<longrightarrow> applyInputDirection second (applyInputDirection first s) =
          s\<lparr>pendingDirectionRef := Some second\<rparr>)"
  by (auto simp add: applyInputDirection_def activeDirection_def split: option.splits)

theorem applyInputDirection_spec_witness:
  "pendingDirectionRef ((startedGame (1 / 3) (1 / 2))\<lparr>pendingDirectionRef := Some Up\<rparr>) = Some Up
   \<and> pendingDirectionRef
        (applyInputDirection Down
           ((startedGame (1 / 3) (1 / 2))\<lparr>pendingDirectionRef := Some Up\<rparr>)) = Some Up
   \<and> pendingDirectionRef
        (applyInputDirection Left
           ((startedGame (1 / 3) (1 / 2))\<lparr>pendingDirectionRef := Some Up\<rparr>)) = Some Left
   \<and> pendingDirectionRef (startedGame (1 / 3) (1 / 2)) = None
   \<and> directionRef (startedGame (1 / 3) (1 / 2)) = Right
   \<and> pendingDirectionRef (applyInputDirection Left (startedGame (1 / 3) (1 / 2))) = None
   \<and> pendingDirectionRef (applyInputDirection Down (startedGame (1 / 3) (1 / 2))) = Some Down
   \<and> Up \<noteq> OPPOSITE_DIRECTION Right
   \<and> Right \<noteq> OPPOSITE_DIRECTION Up
   \<and> pendingDirectionRef
        (applyInputDirection Right (applyInputDirection Up (startedGame (1 / 3) (1 / 2))))
       = Some Right"
proof -
  let ?s = "startedGame (1 / 3) (1 / 2)"
  let ?p = "?s\<lparr>pendingDirectionRef := Some Up\<rparr>"
  have refs: "pendingDirectionRef ?s = None" "directionRef ?s = Right"
    by (simp_all add: startedGame_def clickStart_def resetGame_def initialHomePage_def Let_def)
  have queued: "pendingDirectionRef ?p = Some Up"
    by simp
  from queued have "pendingDirectionRef (applyInputDirection Down ?p) = Some Up"
    "pendingDirectionRef (applyInputDirection Left ?p) = Some Left"
    using applyInputDirection_spec [where s = ?p and pending = Up and requested = Down,
        THEN conjunct1]
      applyInputDirection_spec [where s = ?p and pending = Up and requested = Left,
        THEN conjunct1]
    by simp_all
  moreover from refs have none: "pendingDirectionRef (applyInputDirection Left ?s) = None"
    "pendingDirectionRef (applyInputDirection Down ?s) = Some Down"
    "applyInputDirection Up ?s = ?s\<lparr>pendingDirectionRef := Some Up\<rparr>"
    using applyInputDirection_spec [where s = ?s and requested = Left,
        THEN conjunct2, THEN conjunct1]
      applyInputDirection_spec [where s = ?s and requested = Down,
        THEN conjunct2, THEN conjunct1]
      applyInputDirection_spec [where s = ?s and requested = Up,
        THEN conjunct2, THEN conjunct1]
    by simp_all
  moreover from refs
  have "pendingDirectionRef (applyInputDirection Right (applyInputDirection Up ?s))
       = Some Right"
    using applyInputDirection_spec [where s = ?s and first = Up and second = Right,
        THEN conjunct2, THEN conjunct2]
    by simp
  ultimately show ?thesis
    using refs queued by simp
qed


section \<open>Committing a heading\<close>

text \<open>
  With nothing queued, one request never turns the committed heading around: the guard
  does its work for a single key press between two ticks.
\<close>

lemma single_request_never_reverses:
  assumes "pendingDirectionRef s = None"
  shows "directionRef (commitDirection (applyInputDirection requested s))
      \<noteq> OPPOSITE_DIRECTION (directionRef s)"
  using assms
  by (cases "directionRef s")
    (auto simp add: applyInputDirection_def commitDirection_def activeDirection_def Let_def)

lemma startedGame_fields:
  "snakeState (startedGame rnd0 rnd1) = createInitialSnake"
  "directionRef (startedGame rnd0 rnd1) = Right"
  "pendingDirectionRef (startedGame rnd0 rnd1) = None"
  "isStartedState (startedGame rnd0 rnd1) = True"
  "isPausedState (startedGame rnd0 rnd1) = False"
  "isGameOverState (startedGame rnd0 rnd1) = False"
  "scoreState (startedGame rnd0 rnd1) = 0"
  by (simp_all add: startedGame_def clickStart_def resetGame_def initialHomePage_def Let_def)

text \<open>
  Claim C4 says that the heading committed at a tick is never the opposite of the heading
  committed before, whatever was queued in between. The code does not keep to that: in a
  game just started (heading right, nothing pending) the keys \<open>ArrowUp\<close> and
  \<open>ArrowLeft\<close> are both accepted, the second against the pending heading up, and the
  next tick commits left, the opposite of right; the head runs into the neck and the game
  is over.
\<close>

theorem committed_heading_reverses:
  "directionRef (startedGame rnd0 rnd1) = Right
   \<and> pendingDirectionRef (startedGame rnd0 rnd1) = None
   \<and> resolveDirectionInput ''ArrowUp'' Right = Some Up
   \<and> resolveDirectionInput ''ArrowLeft'' Right = Some Left
   \<and> pendingDirectionRef (onKeyDown ''ArrowUp'' (startedGame rnd0 rnd1)) = Some Up
   \<and> pendingDirectionRef
        (onKeyDown ''ArrowLeft'' (onKeyDown ''ArrowUp'' (startedGame rnd0 rnd1))) = Some Left
   \<and> directionRef
        (commitDirection
           (onKeyDown ''ArrowLeft'' (onKeyDown ''ArrowUp'' (startedGame rnd0 rnd1))))
       = OPPOSITE_DIRECTION (directionRef (startedGame rnd0 rnd1))
   \<and> (\<exists>s'. run (startedGame rnd0 rnd1)
                [KeyDown ''ArrowUp'', KeyDown ''ArrowLeft'', TimerFired rnd] = Inr s'
         \<and> directionRef s' = Left
         \<and> directionRef s' = OPPOSITE_DIRECTION (directionRef (startedGame rnd0 rnd1))
         \<and> snakeState s' = createInitialSnake
         \<and> isGameOverState s')"
proof -
  let ?s0 = "startedGame rnd0 rnd1"
  let ?s1 = "onKeyDown ''ArrowUp'' ?s0"
  let ?s2 = "onKeyDown ''ArrowLeft'' ?s1"
  have up: "resolveDirectionInput ''ArrowUp'' Right = Some Up"
    and left: "resolveDirectionInput ''ArrowLeft'' Right = Some Left"
    by (simp_all add: resolveDirectionInput_def toLowerCase_def toLowerCase_char_def
        char_of_eq_iff)
  have s1: "?s1 = ?s0\<lparr>pendingDirectionRef := Some Up\<rparr>"
    by (simp add: onKeyDown_def startedGame_fields up applyInputDirection_def
        activeDirection_def)
  have s2: "?s2 = ?s0\<lparr>pendingDirectionRef := Some Left\<rparr>"
    unfolding s1
    by (simp add: onKeyDown_def startedGame_fields left applyInputDirection_def
        activeDirection_def)
  have commit: "directionRef (commitDirection ?s2) = Left"
    by (simp add: s2 commitDirection_def activeDirection_def Let_def)
  have moved: "movedHead \<lparr>x = 12, y = 12\<rparr> Left = \<lparr>x = 11, y = 12\<rparr>"
    by (simp add: movedHead_def)
  have step: "stepGame rnd createInitialSnake Left (foodState ?s0) =
      Inr \<lparr>nextSnake = createInitialSnake, nextFood = foodState ?s0, ateFood = False,
           isGameOver = True\<rparr>"
    unfolding createInitialSnake_def GRID_SIZE_def Let_def
    by (simp add: stepGame_stopped moved checkSet_def)
  have "tick rnd ?s2 = Inr (?s0\<lparr>pendingDirectionRef := None, directionRef := Left,
      directionState := Left, snakeState := createInitialSnake, foodState := foodState ?s0,
      isGameOverState := True, isPausedState := False\<rparr>)"
    by (simp add: s2 tick_def timerCallback_def commitDirection_def activeDirection_def
        startedGame_fields step Let_def)
  then have "\<exists>s'. run ?s0 [KeyDown ''ArrowUp'', KeyDown ''ArrowLeft'', TimerFired rnd] = Inr s'
         \<and> directionRef s' = Left
         \<and> directionRef s' = OPPOSITE_DIRECTION (directionRef ?s0)
         \<and> snakeState s' = createInitialSnake
         \<and> isGameOverState s'"
    by (simp add: startedGame_fields)
  with up left s1 s2 commit show ?thesis
    by (simp add: startedGame_fields)
qed

theorem committed_heading_reverses_witness:
  "\<exists>keys. directionRef
       (commitDirection (foldl (\<lambda>s key. onKeyDown key s) (startedGame (1 / 3) (1 / 2)) keys))
     = OPPOSITE_DIRECTION (directionRef (startedGame (1 / 3) (1 / 2)))"
proof -
  have "directionRef
       (commitDirection
          (foldl (\<lambda>s key. onKeyDown key s) (startedGame (1 / 3) (1 / 2))
             [''ArrowUp'', ''ArrowLeft'']))
     = OPPOSITE_DIRECTION (directionRef (startedGame (1 / 3) (1 / 2)))"
    using committed_heading_reverses [of "1 / 3" "1 / 2"] by simp
  then show ?thesis
    by blast
qed

end
